theory Spec2Isabelle
  imports
    Main
    "HOL-Library.Char_ord"
    "HOL-Library.List_Lexorder"
    "HOL-Library.Multiset"
    "HOL-Library.Word"
begin

section \<open>Data model of dgw.go\<close>

text \<open>
  Go strings are byte sequences compared bytewise; \<^typ>\<open>string\<close> with the
  orders of \<open>Char_ord\<close> and \<open>List_Lexorder\<close> is the same order. A \<open>[]byte\<close> is a
  list of 8-bit words, the nil slice being the empty list.
\<close>

type_synonym byte = "8 word"

text \<open>
  Errors: an error of a collaborator (database, TOML decoder, template engine,
  formatter) is \<open>Err msg\<close>; \<open>errors.Wrap(err, msg)\<close> is \<open>Wrap err msg\<close>.
\<close>

datatype error = Err string | Wrap error string

text \<open>\<open>type TypeMap struct\<close> (dgw.go 49-55).\<close>

record TypeMap =
  DBTypes :: "string list"
  NotNullGoType :: string
  NotNullNilValue :: string
  NullableGoType :: string
  NullableNilValue :: string

text \<open>
  \<open>type PgTypeMapConfig map[string]TypeMap\<close> (dgw.go 58). Indexing a Go map at
  an absent key gives the zero value of the element type.
\<close>

type_synonym PgTypeMapConfig = "string \<rightharpoonup> TypeMap"

definition zeroTypeMap :: TypeMap where
  "zeroTypeMap = \<lparr>DBTypes = [], NotNullGoType = [], NotNullNilValue = [],
     NullableGoType = [], NullableNilValue = []\<rparr>"

definition index :: "PgTypeMapConfig \<Rightarrow> string \<Rightarrow> TypeMap" where
  "index cfg k = (case cfg k of None \<Rightarrow> zeroTypeMap | Some v \<Rightarrow> v)"

text \<open>\<open>sql.NullString\<close>, the type of \<open>PgColumn.DefaultValue\<close>.\<close>

record NullString =
  String :: string
  Valid :: bool

text \<open>\<open>type PgColumn struct\<close> (dgw.go 69-76).\<close>

record PgColumn =
  FieldOrdinal :: int
  Name :: string
  DataType :: string
  NotNull :: bool
  DefaultValue :: NullString
  IsPrimaryKey :: bool

text \<open>
  \<open>type PgTable struct\<close> (dgw.go 61-66). The source holds pointers to columns;
  no column is written after it is loaded, so the model holds the values.
\<close>

record PgTable =
  Schema :: string
  Name :: string
  DataType :: string
  Columns :: "PgColumn list"

text \<open>\<open>type StructField struct\<close> (dgw.go 140-146).\<close>

record StructField =
  Name :: string
  Type :: string
  Tag :: string
  NilVal :: string
  Col :: PgColumn

text \<open>\<open>type Struct struct\<close> (dgw.go 149-155).\<close>

record Struct =
  Name :: string
  TableName :: string
  Schema :: string
  Comment :: string
  Fields :: "StructField list"

section \<open>Collaborators\<close>

text \<open>
  The \<open>Queryer\<close> passed to the loaders. The two catalog queries of dgw.go
  (\<open>pgLoadTableDef\<close>, \<open>pgLoadColumnDef\<close>) are answered by the database: each
  \<open>Query\<close> call either fails or gives the rows that \<open>Next\<close> steps through, and
  \<open>Scan\<close> on a row either fails or gives the scanned values (for a table row the
  pair \<open>(DataType, Name)\<close>). When \<open>Next\<close> stops because of an error and not at
  the last row of the result, \<open>Rows.Err\<close> holds that error: \<open>RowsErr_pgLoadTableDef\<close>
  and \<open>RowsErr_pgLoadColumnDef\<close>, \<open>None\<close> when the iteration reached the end.
\<close>

record Queryer =
  Query_pgLoadTableDef :: "string \<Rightarrow> error + (error + string \<times> string) list"
  Query_pgLoadColumnDef :: "string \<Rightarrow> string \<Rightarrow> error + (error + PgColumn) list"
  RowsErr_pgLoadTableDef :: "string \<Rightarrow> error option"
  RowsErr_pgLoadColumnDef :: "string \<Rightarrow> string \<Rightarrow> error option"

text \<open>
  The libraries called by the generator: \<open>varfmt.PublicVarName\<close>, the TOML
  decoder (on the bundled \<open>typeMap\<close> asset and on a file path), the template
  engine (\<open>Parse\<close>, then \<open>Execute\<close> into a fresh buffer: the bytes written and the
  error) and \<open>format.Source\<close>.
\<close>

record 't Env =
  PublicVarName :: "string \<Rightarrow> string"
  typeMap :: string
  toml_Decode :: "string \<Rightarrow> error + PgTypeMapConfig"
  toml_DecodeFile :: "string \<Rightarrow> error + PgTypeMapConfig"
  template_Parse :: "string \<Rightarrow> error + 't"
  template_Execute :: "'t \<Rightarrow> Struct \<Rightarrow> byte list \<times> error option"
  format_Source :: "byte list \<Rightarrow> byte list \<times> error option"

section \<open>Membership test\<close>

text \<open>
  \<open>sort.Strings\<close> sorts the slice in place in increasing order; the sorted
  arrangement of a list of strings is unique, so it is \<^const>\<open>sort\<close>.
\<close>

definition sort_Strings :: "string list \<Rightarrow> string list" where
  "sort_Strings l = sort l"

text \<open>
  \<open>sort.Search(n, f)\<close>: the binary search of the Go library, with the loop
  variables \<open>i\<close> and \<open>j\<close> (\<open>h := int(uint(i+j) >> 1)\<close>).
\<close>

function Search_loop :: "(nat \<Rightarrow> bool) \<Rightarrow> nat \<Rightarrow> nat \<Rightarrow> nat" where
  "Search_loop f i j =
     (if i < j then
        (let h = (i + j) div 2 in
         if \<not> f h then Search_loop f (h + 1) j else Search_loop f i h)
      else i)"
  by pat_completeness auto
termination
  by (relation "measure (\<lambda>(f, i, j). j - i)") auto

definition Search :: "nat \<Rightarrow> (nat \<Rightarrow> bool) \<Rightarrow> nat" where
  "Search n f = Search_loop f 0 n"

text \<open>\<open>sort.SearchStrings(a, x) = sort.Search(len(a), a[i] >= x)\<close>.\<close>

definition SearchStrings :: "string list \<Rightarrow> string \<Rightarrow> nat" where
  "SearchStrings a x = Search (length a) (\<lambda>i. x \<le> a ! i)"

text \<open>
  \<open>contains\<close> (dgw.go 157-164). The sort is in place, so the caller's slice is
  changed: the model returns the answer and the slice as it is left.
\<close>

definition contains :: "string \<Rightarrow> string list \<Rightarrow> bool \<times> string list" where
  "contains v l =
     (let l' = sort_Strings l;
          i = SearchStrings l' v
      in (if i < length l' \<and> l' ! i = v then True else False, l'))"

section \<open>Type resolution\<close>

text \<open>
  \<open>for _, v := range cfg\<close> visits every entry of the map once, in an order the
  Go runtime chooses afresh for each loop. The order is the parameter \<open>ks\<close>, a
  list of keys; \<open>range_order cfg ks\<close> says that it is an order of \<open>cfg\<close>.
\<close>

definition range_order :: "PgTypeMapConfig \<Rightarrow> string list \<Rightarrow> bool" where
  "range_order cfg ks \<longleftrightarrow> distinct ks \<and> set ks = dom cfg"

text \<open>
  The loop of \<open>PgConvertType\<close> (dgw.go 171-178). \<open>v\<close> is a copy of the map's
  value, whose \<open>DBTypes\<close> shares its array with the value in the map, so the sort
  inside \<open>contains\<close> is seen in the configuration. \<open>Some\<close> is a \<open>return\<close> inside
  the loop, \<open>None\<close> its normal end. A key of \<open>ks\<close> that the map does not hold is
  passed over; an order of the map has none.
\<close>

fun PgConvertType_range ::
  "PgColumn \<Rightarrow> string list \<Rightarrow> PgTypeMapConfig \<Rightarrow> (string \<times> string) option \<times> PgTypeMapConfig"
where
  "PgConvertType_range col [] cfg = (None, cfg)"
| "PgConvertType_range col (k # ks) cfg =
     (case cfg k of
        None \<Rightarrow> PgConvertType_range col ks cfg
      | Some v \<Rightarrow>
          (case contains (PgColumn.DataType col) (DBTypes v) of
             (b, l') \<Rightarrow>
               (let cfg' = cfg(k \<mapsto> v\<lparr>DBTypes := l'\<rparr>) in
                if b then
                  (if NotNull col then (Some (NotNullGoType v, NotNullNilValue v), cfg')
                   else (Some (NullableGoType v, NullableNilValue v), cfg'))
                else PgConvertType_range col ks cfg')))"

text \<open>\<open>PgConvertType\<close> (dgw.go 167-180).\<close>

definition PgConvertType ::
  "PgColumn \<Rightarrow> PgTypeMapConfig \<Rightarrow> string list \<Rightarrow> (string \<times> string) \<times> PgTypeMapConfig"
where
  "PgConvertType col cfg ks =
     (let typ = NotNullGoType (index cfg ''default'');
          nilVal = NotNullNilValue (index cfg ''default'')
      in case PgConvertType_range col ks cfg of
           (Some r, cfg') \<Rightarrow> (r, cfg')
         | (None, cfg') \<Rightarrow> ((typ, nilVal), cfg'))"

section \<open>Model building\<close>

text \<open>\<open>PgColToField\<close> (dgw.go 183-188).\<close>

definition PgColToField ::
  "'t Env \<Rightarrow> PgColumn \<Rightarrow> PgTypeMapConfig \<Rightarrow> string list
     \<Rightarrow> (error + StructField) \<times> PgTypeMapConfig"
where
  "PgColToField env col cfg ks =
     (let stfName = PublicVarName env (PgColumn.Name col) in
      case PgConvertType col cfg ks of
        ((stfType, nilVal), cfg') \<Rightarrow>
          (Inr \<lparr>StructField.Name = stfName, Type = stfType, Tag = [],
                NilVal = nilVal, Col = col\<rparr>, cfg'))"

text \<open>
  The loop of \<open>PgTableToStruct\<close> (dgw.go 206-212); \<open>kss j\<close> is the order in
  which the map is ranged over for the column at index \<open>j\<close>.
\<close>

fun PgTableToStruct_loop ::
  "'t Env \<Rightarrow> (nat \<Rightarrow> string list) \<Rightarrow> nat \<Rightarrow> PgColumn list \<Rightarrow> PgTypeMapConfig
     \<Rightarrow> StructField list \<Rightarrow> (error + StructField list) \<times> PgTypeMapConfig"
where
  "PgTableToStruct_loop env kss j [] cfg fs = (Inr fs, cfg)"
| "PgTableToStruct_loop env kss j (c # cs) cfg fs =
     (case PgColToField env c cfg (kss j) of
        (Inl err, cfg') \<Rightarrow> (Inl (Wrap err ''faield to convert col to field''), cfg')
      | (Inr f, cfg') \<Rightarrow> PgTableToStruct_loop env kss (j + 1) cs cfg' (fs @ [f]))"

text \<open>\<open>PgTableToStruct\<close> (dgw.go 199-215).\<close>

definition PgTableToStruct ::
  "'t Env \<Rightarrow> (nat \<Rightarrow> string list) \<Rightarrow> PgTable \<Rightarrow> PgTypeMapConfig
     \<Rightarrow> (error + Struct) \<times> PgTypeMapConfig"
where
  "PgTableToStruct env kss t cfg =
     (case PgTableToStruct_loop env kss 0 (Columns t) cfg [] of
        (Inl err, cfg') \<Rightarrow> (Inl err, cfg')
      | (Inr fs, cfg') \<Rightarrow>
          (Inr \<lparr>Struct.Name = PublicVarName env (PgTable.Name t),
                TableName = PgTable.Name t,
                Struct.Schema = PgTable.Schema t,
                Comment = [],
                Fields = fs\<rparr>, cfg'))"

section \<open>Catalog loading\<close>

text \<open>
  The row loop of \<open>PgLoadColumnDef\<close> (dgw.go 95-109). After the loop the source
  returns the columns read, without a call of \<open>Rows.Err\<close>.
\<close>

fun PgLoadColumnDef_rows ::
  "(error + PgColumn) list \<Rightarrow> PgColumn list \<Rightarrow> error + PgColumn list"
where
  "PgLoadColumnDef_rows [] cols = Inr cols"
| "PgLoadColumnDef_rows (r # rs) cols =
     (case r of
        Inl err \<Rightarrow> Inl (Wrap err ''failed to scan'')
      | Inr c \<Rightarrow> PgLoadColumnDef_rows rs (cols @ [c]))"

text \<open>\<open>PgLoadColumnDef\<close> (dgw.go 88-111).\<close>

definition PgLoadColumnDef :: "Queryer \<Rightarrow> string \<Rightarrow> string \<Rightarrow> error + PgColumn list" where
  "PgLoadColumnDef db schema table =
     (case Query_pgLoadColumnDef db schema table of
        Inl err \<Rightarrow> Inl (Wrap err ''failed to load table def'')
      | Inr colDefs \<Rightarrow> PgLoadColumnDef_rows colDefs [])"

text \<open>
  The row loop of \<open>PgLoadTableDef\<close> (dgw.go 120-135). After the loop the source
  returns the tables read, without a call of \<open>Rows.Err\<close>.
\<close>

fun PgLoadTableDef_rows ::
  "Queryer \<Rightarrow> string \<Rightarrow> (error + string \<times> string) list \<Rightarrow> PgTable list
     \<Rightarrow> error + PgTable list"
where
  "PgLoadTableDef_rows db schema [] tbs = Inr tbs"
| "PgLoadTableDef_rows db schema (r # rs) tbs =
     (case r of
        Inl err \<Rightarrow> Inl (Wrap err ''failed to scan'')
      | Inr (dataType, name) \<Rightarrow>
          (case PgLoadColumnDef db schema name of
             Inl err \<Rightarrow> Inl (Wrap err (''failed to get columns of '' @ name))
           | Inr cols \<Rightarrow>
               PgLoadTableDef_rows db schema rs
                 (tbs @ [\<lparr>PgTable.Schema = schema, Name = name,
                          DataType = dataType, Columns = cols\<rparr>])))"

text \<open>\<open>PgLoadTableDef\<close> (dgw.go 114-137).\<close>

definition PgLoadTableDef :: "Queryer \<Rightarrow> string \<Rightarrow> error + PgTable list" where
  "PgLoadTableDef db schema =
     (case Query_pgLoadTableDef db schema of
        Inl err \<Rightarrow> Inl (Wrap err ''failed to load table def'')
      | Inr tbDefs \<Rightarrow> PgLoadTableDef_rows db schema tbDefs [])"

section \<open>Rendering\<close>

text \<open>The constant \<open>structTmpl\<close> (dgw.go 190-196).\<close>

definition structTmpl :: string where
  "structTmpl =
     ''\<newline>// {{ .Name }} represents {{ .Schema }}.{{ .TableName }}'' @
     ''\<newline>type {{ .Name }} struct {'' @
     ''\<newline>{{- range .Fields }}'' @
     ''\<newline>'' @ [CHR 0x09] @ ''{{ .Name }} {{ .Type }} // {{ .Col.Name }}'' @
     ''\<newline>{{- end }}'' @
     ''\<newline>}''"

text \<open>
  \<open>PgExecuteStructTmpl\<close> (dgw.go 218-233). The result is the pair the source
  returns: the bytes and the error (\<open>None\<close> for \<open>nil\<close>).
\<close>

definition PgExecuteStructTmpl :: "'t Env \<Rightarrow> Struct \<Rightarrow> byte list \<times> error option" where
  "PgExecuteStructTmpl env st =
     (case template_Parse env structTmpl of
        Inl err \<Rightarrow> ([], Some (Wrap err ''failed to parse template''))
      | Inr tpl \<Rightarrow>
          (case template_Execute env tpl st of
             (buf, Some err) \<Rightarrow> ([], Some (Wrap err ''failed to execute template''))
           | (buf, None) \<Rightarrow>
               (case format_Source env buf of
                  (src, Some err) \<Rightarrow> (src, Some (Wrap err ''failed to format source code''))
                | (src, None) \<Rightarrow> (src, None))))"

section \<open>The whole run\<close>

text \<open>
  The table loop of \<open>PgCreateStruct\<close> (dgw.go 252-262), from the table at
  index \<open>i\<close> on, with the output \<open>src\<close> accumulated so far; \<open>ord i j\<close> is the order in
  which the map is ranged over for column \<open>j\<close> of table \<open>i\<close>.
\<close>

fun PgCreateStruct_loop ::
  "'t Env \<Rightarrow> (nat \<Rightarrow> nat \<Rightarrow> string list) \<Rightarrow> nat \<Rightarrow> PgTable list \<Rightarrow> PgTypeMapConfig
     \<Rightarrow> byte list \<Rightarrow> (byte list \<times> error option) \<times> PgTypeMapConfig"
where
  "PgCreateStruct_loop env ord i [] cfg src = ((src, None), cfg)"
| "PgCreateStruct_loop env ord i (tbl # tbls) cfg src =
     (case PgTableToStruct env (ord i) tbl cfg of
        (Inl err, cfg') \<Rightarrow>
          ((src, Some (Wrap err ''faield to convert table definition to struct'')), cfg')
      | (Inr st, cfg') \<Rightarrow>
          (case PgExecuteStructTmpl env st of
             (s, Some err) \<Rightarrow> ((src, Some (Wrap err ''faield to execute template'')), cfg')
           | (s, None) \<Rightarrow> PgCreateStruct_loop env ord (i + 1) tbls cfg' (src @ s)))"

text \<open>The decoding of the type map in \<open>PgCreateStruct\<close> (dgw.go 242-251).\<close>

definition PgCreateStruct_typeMap :: "'t Env \<Rightarrow> string \<Rightarrow> error + PgTypeMapConfig" where
  "PgCreateStruct_typeMap env typeMapPath =
     (if typeMapPath = [] then
        (case toml_Decode env (typeMap env) of
           Inl err \<Rightarrow> Inl (Wrap err ''faield to read type map'')
         | Inr cfg \<Rightarrow> Inr cfg)
      else
        (case toml_DecodeFile env typeMapPath of
           Inl err \<Rightarrow> Inl (Wrap err (''failed to decode type map file '' @ typeMapPath))
         | Inr cfg \<Rightarrow> Inr cfg))"

text \<open>\<open>PgCreateStruct\<close> (dgw.go 236-264).\<close>

definition PgCreateStruct ::
  "'t Env \<Rightarrow> (nat \<Rightarrow> nat \<Rightarrow> string list) \<Rightarrow> Queryer \<Rightarrow> string \<Rightarrow> string
     \<Rightarrow> byte list \<times> error option"
where
  "PgCreateStruct env ord db schema typeMapPath =
     (case PgLoadTableDef db schema of
        Inl err \<Rightarrow> ([], Some (Wrap err ''faield to load table definitions''))
      | Inr tbls \<Rightarrow>
          (case PgCreateStruct_typeMap env typeMapPath of
             Inl err \<Rightarrow> ([], Some err)
           | Inr cfg \<Rightarrow> fst (PgCreateStruct_loop env ord 0 tbls cfg [])))"

section \<open>Specification vocabulary\<close>

text \<open>
  Two configurations hold the same rules when they have the same keys and, at each
  key, values equal but for the arrangement of \<open>DBTypes\<close>.
\<close>

definition same_rules :: "PgTypeMapConfig \<Rightarrow> PgTypeMapConfig \<Rightarrow> bool" where
  "same_rules cfg cfg' \<longleftrightarrow>
     (\<forall>k. case cfg k of
            None \<Rightarrow> cfg' k = None
          | Some v \<Rightarrow> (\<exists>l. cfg' k = Some (v\<lparr>DBTypes := l\<rparr>) \<and> mset l = mset (DBTypes v)))"

text \<open>
  The resolution the specification describes, on a configuration that is only read:
  the pair of the first rule, in the order \<open>ks\<close>, whose \<open>DBTypes\<close> has the
  column's type as an element.
\<close>

fun first_match :: "PgColumn \<Rightarrow> string list \<Rightarrow> PgTypeMapConfig \<Rightarrow> (string \<times> string) option" where
  "first_match col [] cfg = None"
| "first_match col (k # ks) cfg =
     (case cfg k of
        None \<Rightarrow> first_match col ks cfg
      | Some v \<Rightarrow>
          if PgColumn.DataType col \<in> set (DBTypes v) then
            Some (if NotNull col then (NotNullGoType v, NotNullNilValue v)
                  else (NullableGoType v, NullableNilValue v))
          else first_match col ks cfg)"

text \<open>
  The output of one table rendered on its own against the configuration \<open>cfg\<close>.
\<close>

definition table_output :: "'t Env \<Rightarrow> (nat \<Rightarrow> string list) \<Rightarrow> PgTable \<Rightarrow> PgTypeMapConfig \<Rightarrow> byte list" where
  "table_output env kss t cfg =
     (case fst (PgTableToStruct env kss t cfg) of
        Inl err \<Rightarrow> []
      | Inr st \<Rightarrow> fst (PgExecuteStructTmpl env st))"

section \<open>Example data\<close>

text \<open>
  A small type map and columns of the table \<open>t1\<close> of the test schema
  (dgw_test.sql).
\<close>


definition ex_default :: TypeMap where
  "ex_default = \<lparr>DBTypes = [], NotNullGoType = ''interface{}'', NotNullNilValue = ''nil'',
     NullableGoType = ''interface{}'', NullableNilValue = ''nil''\<rparr>"

definition ex_string :: TypeMap where
  "ex_string = \<lparr>DBTypes = [''text'', ''character varying''], NotNullGoType = ''string'',
     NotNullNilValue = [CHR 0x22, CHR 0x22],
     NullableGoType = ''sql.NullString'', NullableNilValue = ''sql.NullString{}''\<rparr>"

definition ex_int :: TypeMap where
  "ex_int = \<lparr>DBTypes = [''integer'', ''bigint''], NotNullGoType = ''int64'',
     NotNullNilValue = ''0'',
     NullableGoType = ''sql.NullInt64'', NullableNilValue = ''sql.NullInt64{}''\<rparr>"

definition ex_int32 :: TypeMap where
  "ex_int32 = \<lparr>DBTypes = [''integer''], NotNullGoType = ''int32'',
     NotNullNilValue = ''0'',
     NullableGoType = ''sql.NullInt32'', NullableNilValue = ''sql.NullInt32{}''\<rparr>"

definition ex_cfg :: PgTypeMapConfig where
  "ex_cfg = [''default'' \<mapsto> ex_default, ''string'' \<mapsto> ex_string, ''int'' \<mapsto> ex_int]"

definition ex_overlap :: PgTypeMapConfig where
  "ex_overlap = [''int'' \<mapsto> ex_int, ''int32'' \<mapsto> ex_int32]"

definition ex_nodefault :: PgTypeMapConfig where
  "ex_nodefault = [''string'' \<mapsto> ex_string]"

definition no_default :: NullString where
  "no_default = \<lparr>String = [], Valid = True\<rparr>"

definition col_i :: PgColumn where
  "col_i = \<lparr>FieldOrdinal = 2, Name = ''i'', DataType = ''integer'', NotNull = True,
     DefaultValue = no_default, IsPrimaryKey = False\<rparr>"

definition col_nullable_str :: PgColumn where
  "col_nullable_str = \<lparr>FieldOrdinal = 5, Name = ''nullable_str'', DataType = ''text'',
     NotNull = False, DefaultValue = no_default, IsPrimaryKey = False\<rparr>"

definition col_nullable_tz :: PgColumn where
  "col_nullable_tz = \<lparr>FieldOrdinal = 8, Name = ''nullable_tz'',
     DataType = ''timestamp with time zone'',
     NotNull = False, DefaultValue = no_default, IsPrimaryKey = False\<rparr>"

lemmas ex_defs = ex_default_def ex_string_def ex_int_def ex_int32_def ex_cfg_def ex_overlap_def
  ex_nodefault_def no_default_def col_i_def col_nullable_str_def col_nullable_tz_def

text \<open>
  An identifier derivation standing for \<open>varfmt.PublicVarName\<close>: it keeps letters
  and digits, so that a purely symbolic name gives the empty identifier.
\<close>

definition keep_alnum :: "string \<Rightarrow> string" where
  "keep_alnum s = filter (\<lambda>c. (CHR ''a'' \<le> c \<and> c \<le> CHR ''z'') \<or> (CHR ''A'' \<le> c \<and> c \<le> CHR ''Z'')
                            \<or> (CHR ''0'' \<le> c \<and> c \<le> CHR ''9'')) s"

definition col_symbolic :: PgColumn where
  "col_symbolic = \<lparr>FieldOrdinal = 1, Name = ''$$$'', DataType = ''text'', NotNull = True,
     DefaultValue = no_default, IsPrimaryKey = False\<rparr>"

text \<open>
  Collaborators for the examples: the template writes the struct name, and the
  formatter rejects an empty source.
\<close>

definition ex_env :: "string Env" where
  "ex_env = \<lparr>PublicVarName = keep_alnum,
     typeMap = ''[default]'',
     toml_Decode = (\<lambda>data. Inr ex_cfg),
     toml_DecodeFile = (\<lambda>path. Inl (Err ''no such file'')),
     template_Parse = (\<lambda>text. Inr text),
     template_Execute = (\<lambda>tpl st. (map of_char (Struct.Name st), None)),
     format_Source = (\<lambda>b. if b = [] then ([], Some (Err ''expected declaration'')) else (b, None))\<rparr>"

definition ex_ord :: "nat \<Rightarrow> nat \<Rightarrow> string list" where
  "ex_ord i j = (if even (i + j) then [''default'', ''string'', ''int'']
                 else [''int'', ''string'', ''default''])"

definition col_id :: PgColumn where
  "col_id = \<lparr>FieldOrdinal = 1, Name = ''id'', DataType = ''integer'', NotNull = True,
     DefaultValue = no_default, IsPrimaryKey = True\<rparr>"

definition tbl_t3 :: PgTable where
  "tbl_t3 = \<lparr>PgTable.Schema = ''public'', Name = ''t3'', DataType = ''r'',
     Columns = [col_id, col_i\<lparr>IsPrimaryKey := True\<rparr>]\<rparr>"

definition tbl_symbolic :: PgTable where
  "tbl_symbolic = \<lparr>PgTable.Schema = ''public'', Name = ''$$$'', DataType = ''r'',
     Columns = [col_symbolic]\<rparr>"

definition col_email :: PgColumn where
  "col_email = \<lparr>FieldOrdinal = 2, Name = ''email'', DataType = ''text'', NotNull = True,
     DefaultValue = no_default, IsPrimaryKey = False\<rparr>"

definition tbl_user_account :: PgTable where
  "tbl_user_account = \<lparr>PgTable.Schema = ''public'', Name = ''user_account'', DataType = ''r'',
     Columns = [col_id\<lparr>PgColumn.DataType := ''bigint''\<rparr>, col_email]\<rparr>"


text \<open>The rows of the column query for the tables of the examples.\<close>

definition ex_columns :: "string \<Rightarrow> (error + PgColumn) list" where
  "ex_columns table =
     (if table = ''t3'' then [Inr col_id, Inr (col_i\<lparr>IsPrimaryKey := True\<rparr>)]
      else if table = ''$$$'' then [Inr col_symbolic]
      else [Inr (col_id\<lparr>PgColumn.DataType := ''bigint''\<rparr>), Inr col_email])"

text \<open>
  A database whose column query answers \<open>cq\<close>, whose table query answers \<open>tq\<close> and
  whose iteration over the tables ended with \<open>terr\<close>.
\<close>

definition db_of ::
  "(error + (error + string \<times> string) list) \<Rightarrow> error option
     \<Rightarrow> (string \<Rightarrow> error + (error + PgColumn) list) \<Rightarrow> Queryer"
where
  "db_of tq terr cq =
     \<lparr>Query_pgLoadTableDef = (\<lambda>schema. tq),
      Query_pgLoadColumnDef = (\<lambda>schema table. cq table),
      RowsErr_pgLoadTableDef = (\<lambda>schema. terr),
      RowsErr_pgLoadColumnDef = (\<lambda>schema table. None)\<rparr>"

text \<open>A catalog that lists \<open>user_account\<close> before \<open>t3\<close>.\<close>

definition ex_db :: Queryer where
  "ex_db = db_of (Inr [Inr (''r'', ''user_account''), Inr (''r'', ''t3'')]) None
             (\<lambda>table. Inr (ex_columns table))"

text \<open>A database that cannot be reached.\<close>

definition bad_db :: Queryer where
  "bad_db = db_of (Inl (Err ''connection refused'')) None
              (\<lambda>table. Inl (Err ''connection refused''))"






section \<open>The membership test is exact\<close>

declare Search_loop.simps [simp del]

lemma Search_loop_bounds:
  assumes "sorted a" "i \<le> j" "j \<le> length a"
    and "\<forall>k<i. a ! k < x"
    and "\<forall>k. j \<le> k \<and> k < length a \<longrightarrow> x \<le> a ! k"
  shows "Search_loop (\<lambda>n. x \<le> a ! n) i j \<le> length a
       \<and> (\<forall>k < Search_loop (\<lambda>n. x \<le> a ! n) i j. a ! k < x)
       \<and> (\<forall>k. Search_loop (\<lambda>n. x \<le> a ! n) i j \<le> k \<and> k < length a \<longrightarrow> x \<le> a ! k)"
  using assms
proof (induction "\<lambda>n. x \<le> a ! n" i j rule: Search_loop.induct)
  case (1 i j)
  let ?f = "\<lambda>n. x \<le> a ! n"
  let ?h = "(i + j) div 2"
  show ?case
  proof (cases "i < j")
    case False
    with 1(4) have ij: "i = j" by simp
    have r: "Search_loop ?f i j = i" using False by (subst Search_loop.simps) simp
    show ?thesis unfolding r using 1(5,6,7) ij by auto
  next
    case True
    have hb: "i \<le> ?h" "?h < j" using True by auto
    show ?thesis
    proof (cases "?f ?h")
      case fh: False
      have r: "Search_loop ?f i j = Search_loop ?f (?h + 1) j"
        using True fh by (subst Search_loop.simps) (simp add: Let_def)
      have below: "\<forall>k<?h + 1. a ! k < x"
      proof (intro allI impI)
        fix k assume "k < ?h + 1"
        then have "k \<le> ?h" by simp
        moreover have "?h < length a" using hb 1(5) by simp
        ultimately have "a ! k \<le> a ! ?h" using 1(3) by (simp add: sorted_nth_mono)
        with fh show "a ! k < x" by simp
      qed
      have "?h + 1 \<le> j" using hb by simp
      from 1(1)[OF True refl fh 1(3) this 1(5) below 1(7)]
      show ?thesis unfolding r .
    next
      case fh: True
      have r: "Search_loop ?f i j = Search_loop ?f i ?h"
        using True fh by (subst Search_loop.simps) (simp add: Let_def)
      have above: "\<forall>k. ?h \<le> k \<and> k < length a \<longrightarrow> x \<le> a ! k"
      proof (intro allI impI)
        fix k assume k: "?h \<le> k \<and> k < length a"
        then have "a ! ?h \<le> a ! k" using 1(3) by (simp add: sorted_nth_mono)
        with fh show "x \<le> a ! k" by simp
      qed
      have nn: "\<not> \<not> ?f ?h" using fh by simp
      have "?h \<le> length a" using hb 1(5) by simp
      from 1(2)[OF True refl nn 1(3) hb(1) this 1(6) above]
      show ?thesis unfolding r .
    qed
  qed
qed

lemma SearchStrings_sorted:
  assumes "sorted a"
  shows "(SearchStrings a x < length a \<and> a ! SearchStrings a x = x) \<longleftrightarrow> x \<in> set a"
proof -
  let ?r = "SearchStrings a x"
  have r: "?r = Search_loop (\<lambda>n. x \<le> a ! n) 0 (length a)"
    by (simp add: SearchStrings_def Search_def)
  have p1: "\<forall>k<0. a ! k < x" by simp
  have p2: "\<forall>k. length a \<le> k \<and> k < length a \<longrightarrow> x \<le> a ! k" by auto
  have b: "?r \<le> length a" "\<forall>k < ?r. a ! k < x" "\<forall>k. ?r \<le> k \<and> k < length a \<longrightarrow> x \<le> a ! k"
    using Search_loop_bounds[OF assms le0 order_refl p1 p2] unfolding r by blast+
  show ?thesis
  proof
    assume "?r < length a \<and> a ! ?r = x"
    then show "x \<in> set a" by (metis nth_mem)
  next
    assume "x \<in> set a"
    then obtain n where n: "n < length a" "a ! n = x" by (auto simp: in_set_conv_nth)
    have "\<not> n < ?r" using b(2) n by auto
    then have rn: "?r \<le> n" by simp
    then have rl: "?r < length a" using n by simp
    have "x \<le> a ! ?r" using b(3) rl by simp
    moreover have "a ! ?r \<le> a ! n" using assms rn n(1) by (simp add: sorted_nth_mono)
    ultimately have "a ! ?r = x" using n(2) by simp
    with rl show "?r < length a \<and> a ! ?r = x" by simp
  qed
qed

lemma contains_eq: "contains v l = (v \<in> set l, sort l)"
  using SearchStrings_sorted[of "sort l" v]
  by (simp add: contains_def sort_Strings_def Let_def)

section \<open>The range loop and the resolution\<close>

lemma same_rules_refl: "same_rules cfg cfg"
  unfolding same_rules_def
proof
  fix k show "case cfg k of None \<Rightarrow> cfg k = None
     | Some v \<Rightarrow> \<exists>l. cfg k = Some (v\<lparr>DBTypes := l\<rparr>) \<and> mset l = mset (DBTypes v)"
    by (cases "cfg k") (auto intro: exI[of _ "DBTypes (the (cfg k))"])
qed

lemma same_rules_NoneD: "same_rules cfg cfg' \<Longrightarrow> cfg k = None \<Longrightarrow> cfg' k = None"
  unfolding same_rules_def by (drule spec[of _ k]) simp

lemma same_rules_SomeD:
  "same_rules cfg cfg' \<Longrightarrow> cfg k = Some v
     \<Longrightarrow> \<exists>l. cfg' k = Some (v\<lparr>DBTypes := l\<rparr>) \<and> mset l = mset (DBTypes v)"
  unfolding same_rules_def by (drule spec[of _ k]) simp

lemma same_rules_trans:
  assumes "same_rules a b" "same_rules b c"
  shows "same_rules a c"
  unfolding same_rules_def
proof
  fix k
  show "case a k of None \<Rightarrow> c k = None
     | Some v \<Rightarrow> \<exists>l. c k = Some (v\<lparr>DBTypes := l\<rparr>) \<and> mset l = mset (DBTypes v)"
  proof (cases "a k")
    case None
    then show ?thesis using assms by (simp add: same_rules_NoneD)
  next
    case (Some v)
    from same_rules_SomeD[OF assms(1) Some] obtain l
      where l: "b k = Some (v\<lparr>DBTypes := l\<rparr>)" "mset l = mset (DBTypes v)" by blast
    from same_rules_SomeD[OF assms(2) l(1)] obtain l'
      where l': "c k = Some (v\<lparr>DBTypes := l, DBTypes := l'\<rparr>)" "mset l' = mset l" by auto
    have "c k = Some (v\<lparr>DBTypes := l'\<rparr>) \<and> mset l' = mset (DBTypes v)"
      using l l' by simp
    then show ?thesis using Some by auto
  qed
qed

lemma same_rules_upd:
  assumes "cfg k = Some v"
  shows "same_rules cfg (cfg(k \<mapsto> v\<lparr>DBTypes := sort (DBTypes v)\<rparr>))"
  unfolding same_rules_def
proof
  fix k'
  show "case cfg k' of None \<Rightarrow> (cfg(k \<mapsto> v\<lparr>DBTypes := sort (DBTypes v)\<rparr>)) k' = None
     | Some w \<Rightarrow> \<exists>l. (cfg(k \<mapsto> v\<lparr>DBTypes := sort (DBTypes v)\<rparr>)) k' = Some (w\<lparr>DBTypes := l\<rparr>)
           \<and> mset l = mset (DBTypes w)"
  proof (cases "k' = k")
    case True
    then show ?thesis using assms by (auto intro: exI[of _ "sort (DBTypes v)"])
  next
    case False
    then show ?thesis by (cases "cfg k'") (auto intro: exI[of _ "DBTypes (the (cfg k'))"])
  qed
qed

lemma first_match_same_rules:
  "same_rules cfg cfg' \<Longrightarrow> first_match col ks cfg' = first_match col ks cfg"
proof (induction ks)
  case Nil
  then show ?case by simp
next
  case (Cons k ks)
  show ?case
  proof (cases "cfg k")
    case None
    then show ?thesis using Cons same_rules_NoneD[OF Cons.prems None] by simp
  next
    case (Some v)
    from same_rules_SomeD[OF Cons.prems Some] obtain l
      where l: "cfg' k = Some (v\<lparr>DBTypes := l\<rparr>)" "mset l = mset (DBTypes v)" by blast
    have "set l = set (DBTypes v)" using l(2) by (rule mset_eq_setD)
    then show ?thesis using Cons Some l(1) by simp
  qed
qed

lemma PgConvertType_range_hit:
  "cfg k = Some v \<Longrightarrow> PgColumn.DataType col \<in> set (DBTypes v)
     \<Longrightarrow> PgConvertType_range col (k # ks) cfg =
         (Some (if NotNull col then (NotNullGoType v, NotNullNilValue v)
                else (NullableGoType v, NullableNilValue v)),
          cfg(k \<mapsto> v\<lparr>DBTypes := sort (DBTypes v)\<rparr>))"
  by (simp add: contains_eq Let_def)

lemma PgConvertType_range_miss:
  "cfg k = Some v \<Longrightarrow> PgColumn.DataType col \<notin> set (DBTypes v)
     \<Longrightarrow> PgConvertType_range col (k # ks) cfg =
         PgConvertType_range col ks (cfg(k \<mapsto> v\<lparr>DBTypes := sort (DBTypes v)\<rparr>))"
  by (simp add: contains_eq Let_def)

lemma PgConvertType_range_fst:
  "fst (PgConvertType_range col ks cfg) = first_match col ks cfg"
proof (induction ks arbitrary: cfg)
  case Nil
  then show ?case by simp
next
  case (Cons k ks)
  show ?case
  proof (cases "cfg k")
    case None
    then show ?thesis using Cons by simp
  next
    case (Some v)
    let ?cfg' = "cfg(k \<mapsto> v\<lparr>DBTypes := sort (DBTypes v)\<rparr>)"
    have fm: "first_match col ks ?cfg' = first_match col ks cfg"
      by (rule first_match_same_rules[OF same_rules_upd[of cfg k v, OF Some]])
    show ?thesis
    proof (cases "PgColumn.DataType col \<in> set (DBTypes v)")
      case True
      show ?thesis unfolding PgConvertType_range_hit[where cfg=cfg and k=k, OF Some True] using Some True by simp
    next
      case False
      show ?thesis unfolding PgConvertType_range_miss[where cfg=cfg and k=k, OF Some False] Cons[of ?cfg'] fm
        using Some False by simp
    qed
  qed
qed

lemma PgConvertType_range_snd:
  "same_rules cfg (snd (PgConvertType_range col ks cfg))"
proof (induction ks arbitrary: cfg)
  case Nil
  then show ?case by (simp add: same_rules_refl)
next
  case (Cons k ks)
  show ?case
  proof (cases "cfg k")
    case None
    then show ?thesis using Cons by simp
  next
    case (Some v)
    let ?cfg' = "cfg(k \<mapsto> v\<lparr>DBTypes := sort (DBTypes v)\<rparr>)"
    have 1: "same_rules cfg ?cfg'" by (rule same_rules_upd[of cfg k v, OF Some])
    have 2: "same_rules cfg (snd (PgConvertType_range col ks ?cfg'))"
      by (rule same_rules_trans[OF 1 Cons])
    show ?thesis
    proof (cases "PgColumn.DataType col \<in> set (DBTypes v)")
      case True
      show ?thesis by (simp only: PgConvertType_range_hit[where cfg=cfg and k=k, OF Some True] snd_conv 1)
    next
      case False
      show ?thesis unfolding PgConvertType_range_miss[where cfg=cfg and k=k, OF Some False] by (rule 2)
    qed
  qed
qed

lemma PgConvertType_fst:
  "fst (PgConvertType col cfg ks) =
     (case first_match col ks cfg of
        Some r \<Rightarrow> r
      | None \<Rightarrow> (NotNullGoType (index cfg ''default''), NotNullNilValue (index cfg ''default'')))"
  using PgConvertType_range_fst[of col ks cfg]
  by (cases "PgConvertType_range col ks cfg") (auto simp: PgConvertType_def split: option.splits)

lemma PgConvertType_snd: "snd (PgConvertType col cfg ks) = snd (PgConvertType_range col ks cfg)"
  by (cases "PgConvertType_range col ks cfg") (auto simp: PgConvertType_def split: option.splits)

lemma first_match_None:
  "\<forall>k\<in>set ks. \<forall>v. cfg k = Some v \<longrightarrow> PgColumn.DataType col \<notin> set (DBTypes v)
     \<Longrightarrow> first_match col ks cfg = None"
  by (induction ks) (auto split: option.splits)

lemma first_match_append:
  "\<forall>k\<in>set pre. \<forall>v. cfg k = Some v \<longrightarrow> PgColumn.DataType col \<notin> set (DBTypes v)
     \<Longrightarrow> first_match col (pre @ ks) cfg = first_match col ks cfg"
  by (induction pre) (auto split: option.splits)

section \<open>Claims about type resolution\<close>

text \<open>
  C1. Whatever the column and the configuration, when the range loop reaches a rule
  \<open>k\<close> whose \<open>DBTypes\<close> has the column's raw type name as an element (equality of
  strings), no rule visited before it having it, \<open>PgConvertType\<close> returns the
  not-null pair of that rule if the column is not null and its nullable pair
  otherwise.
\<close>

theorem PgConvertType_first_match:
  assumes "\<forall>k'\<in>set pre. \<forall>v'. cfg k' = Some v' \<longrightarrow> PgColumn.DataType col \<notin> set (DBTypes v')"
    and "cfg k = Some v"
    and "PgColumn.DataType col \<in> set (DBTypes v)"
  shows "fst (PgConvertType col cfg (pre @ k # post)) =
           (if NotNull col then (NotNullGoType v, NotNullNilValue v)
            else (NullableGoType v, NullableNilValue v))"
  unfolding PgConvertType_fst first_match_append[OF assms(1)]
  using assms(2,3) by simp

theorem PgConvertType_first_match_witness:
  "fst (PgConvertType col_nullable_str ex_cfg [''default'', ''string'', ''int'']) =
     (''sql.NullString'', ''sql.NullString{}'')"
proof -
  have h1: "\<forall>k'\<in>set [''default'']. \<forall>v'. ex_cfg k' = Some v'
              \<longrightarrow> PgColumn.DataType col_nullable_str \<notin> set (DBTypes v')"
    by (simp add: ex_defs)
  have h2: "ex_cfg ''string'' = Some ex_string" by (simp add: ex_defs)
  have h3: "PgColumn.DataType col_nullable_str \<in> set (DBTypes ex_string)" by (simp add: ex_defs)
  from PgConvertType_first_match[OF h1 h2 h3, of "[''int'']"]
  show ?thesis by (simp add: col_nullable_str_def ex_string_def)
qed

text \<open>
  C2. When no rule of the configuration has the column's raw type name in its
  \<open>DBTypes\<close>, \<open>PgConvertType\<close> returns the not-null pair of the entry
  \<open>"default"\<close>, whether the column is nullable or not.
\<close>

theorem PgConvertType_unmatched_default:
  assumes "\<forall>k v. cfg k = Some v \<longrightarrow> PgColumn.DataType col \<notin> set (DBTypes v)"
  shows "fst (PgConvertType col cfg ks) =
           (NotNullGoType (index cfg ''default''), NotNullNilValue (index cfg ''default''))"
proof -
  have "first_match col ks cfg = None" using assms by (intro first_match_None) blast
  then show ?thesis by (simp add: PgConvertType_fst)
qed

theorem PgConvertType_unmatched_default_witness:
  "NotNull col_nullable_tz = False \<and>
   fst (PgConvertType col_nullable_tz ex_cfg [''int'', ''default'', ''string'']) =
     (''interface{}'', ''nil'')"
proof -
  have h: "\<forall>k v. ex_cfg k = Some v \<longrightarrow> PgColumn.DataType col_nullable_tz \<notin> set (DBTypes v)"
    by (auto simp: ex_defs split: if_splits)
  have d: "index ex_cfg ''default'' = ex_default" by (simp add: index_def ex_cfg_def)
  have r: "fst (PgConvertType col_nullable_tz ex_cfg [''int'', ''default'', ''string'']) =
             (NotNullGoType ex_default, NotNullNilValue ex_default)"
    using PgConvertType_unmatched_default[OF h, of "[''int'', ''default'', ''string'']"]
    unfolding d .
  show ?thesis unfolding r by (simp add: ex_default_def col_nullable_tz_def)
qed

text \<open>
  C10. With no entry \<open>"default"\<close> and no rule having the column's raw type name,
  \<open>PgConvertType\<close> returns the empty string for the type and for the sentinel.
\<close>

theorem PgConvertType_no_default:
  assumes "cfg ''default'' = None"
    and "\<forall>k v. cfg k = Some v \<longrightarrow> PgColumn.DataType col \<notin> set (DBTypes v)"
  shows "fst (PgConvertType col cfg ks) = ([], [])"
proof -
  have "first_match col ks cfg = None" using assms(2) by (intro first_match_None) blast
  then show ?thesis using assms(1) by (simp add: PgConvertType_fst index_def zeroTypeMap_def)
qed

theorem PgConvertType_no_default_witness:
  "fst (PgConvertType col_i ex_nodefault [''string'']) = ([], [])"
proof -
  have h1: "ex_nodefault ''default'' = None" by (simp add: ex_defs)
  have h2: "\<forall>k v. ex_nodefault k = Some v \<longrightarrow> PgColumn.DataType col_i \<notin> set (DBTypes v)"
    by (auto simp: ex_defs split: if_splits)
  from PgConvertType_no_default[OF h1 h2] show ?thesis .
qed

section \<open>Claims about the effect on the configuration and on determinism\<close>

text \<open>
  C9. \<open>contains\<close> leaves its list sorted, with the same elements counted with
  multiplicity, and answers true exactly when the string is an element. So a
  call of \<open>PgConvertType\<close> leaves a configuration with the same rules, where only
  the arrangement of \<open>DBTypes\<close> may differ; and it does differ for the rule
  \<open>"string"\<close> of the example, whose \<open>DBTypes\<close> is not sorted.
\<close>

theorem contains_sorts_in_place:
  "snd (contains v l) = sort l
   \<and> mset (snd (contains v l)) = mset l
   \<and> (fst (contains v l) \<longleftrightarrow> v \<in> set l)
   \<and> same_rules cfg (snd (PgConvertType col cfg ks))
   \<and> snd (PgConvertType col_nullable_str ex_cfg [''string'']) ''string'' \<noteq> ex_cfg ''string''"
proof -
  have "snd (PgConvertType col_nullable_str ex_cfg [''string'']) ''string''
          = Some (ex_string\<lparr>DBTypes := [''character varying'', ''text'']\<rparr>)"
    by code_simp
  moreover have "ex_cfg ''string'' = Some ex_string" by (simp add: ex_cfg_def)
  ultimately have "snd (PgConvertType col_nullable_str ex_cfg [''string'']) ''string'' \<noteq> ex_cfg ''string''"
    by (simp add: ex_string_def)
  then show ?thesis
    by (simp add: contains_eq PgConvertType_snd PgConvertType_range_snd)
qed

text \<open>
  C4, as stated, fails: with two rules that both list \<open>integer\<close>, the two orders
  in which the map can be ranged over give different pairs for the same column.
\<close>

theorem PgConvertType_order_counterexample:
  "range_order ex_overlap [''int'', ''int32''] \<and> range_order ex_overlap [''int32'', ''int'']
   \<and> fst (PgConvertType col_i ex_overlap [''int'', ''int32''])
       \<noteq> fst (PgConvertType col_i ex_overlap [''int32'', ''int''])"
proof -
  have "range_order ex_overlap [''int'', ''int32'']" "range_order ex_overlap [''int32'', ''int'']"
    by (auto simp: range_order_def ex_overlap_def)
  moreover have "fst (PgConvertType col_i ex_overlap [''int'', ''int32'']) = (''int64'', ''0'')"
    by code_simp
  moreover have "fst (PgConvertType col_i ex_overlap [''int32'', ''int'']) = (''int32'', ''0'')"
    by code_simp
  ultimately show ?thesis by simp
qed


lemma first_match_cong_col:
  "PgColumn.DataType c1 = PgColumn.DataType c2 \<Longrightarrow> NotNull c1 = NotNull c2
     \<Longrightarrow> first_match c1 ks cfg = first_match c2 ks cfg"
  by (induction ks) (auto split: option.splits)

lemma first_match_unique:
  assumes "\<forall>k1 k2 v1 v2. cfg k1 = Some v1 \<and> cfg k2 = Some v2
             \<and> PgColumn.DataType col \<in> set (DBTypes v1)
             \<and> PgColumn.DataType col \<in> set (DBTypes v2) \<longrightarrow> k1 = k2"
    and "cfg k = Some v" and "PgColumn.DataType col \<in> set (DBTypes v)"
  shows "k \<in> set ks \<Longrightarrow> first_match col ks cfg =
           Some (if NotNull col then (NotNullGoType v, NotNullNilValue v)
                 else (NullableGoType v, NullableNilValue v))"
proof (induction ks)
  case Nil
  then show ?case by simp
next
  case (Cons k' ks)
  show ?case
  proof (cases "cfg k'")
    case None
    then have "k' \<noteq> k" using assms(2) by auto
    then show ?thesis using Cons None by simp
  next
    case (Some v')
    show ?thesis
    proof (cases "PgColumn.DataType col \<in> set (DBTypes v')")
      case True
      then have "k' = k" using assms Some by blast
      then have "v' = v" using Some assms(2) by simp
      then show ?thesis using Some True by simp
    next
      case False
      then have "k' \<noteq> k" using assms(2,3) Some by auto
      then show ?thesis using Cons Some False by simp
    qed
  qed
qed

lemma index_same_rules:
  assumes "same_rules cfg cfg'"
  shows "NotNullGoType (index cfg' k) = NotNullGoType (index cfg k)"
    and "NotNullNilValue (index cfg' k) = NotNullNilValue (index cfg k)"
proof -
  show "NotNullGoType (index cfg' k) = NotNullGoType (index cfg k)"
  proof (cases "cfg k")
    case None
    then show ?thesis using same_rules_NoneD[OF assms None] by (simp add: index_def)
  next
    case (Some v)
    then show ?thesis using same_rules_SomeD[OF assms Some] by (auto simp: index_def)
  qed
  show "NotNullNilValue (index cfg' k) = NotNullNilValue (index cfg k)"
  proof (cases "cfg k")
    case None
    then show ?thesis using same_rules_NoneD[OF assms None] by (simp add: index_def)
  next
    case (Some v)
    then show ?thesis using same_rules_SomeD[OF assms Some] by (auto simp: index_def)
  qed
qed

lemma PgConvertType_fst_same_rules:
  "same_rules cfg cfg' \<Longrightarrow> fst (PgConvertType col cfg' ks) = fst (PgConvertType col cfg ks)"
  using index_same_rules[of cfg cfg' "''default''"]
  by (simp add: PgConvertType_fst first_match_same_rules split: option.splits)

lemma PgConvertType_same_rules: "same_rules cfg (snd (PgConvertType col cfg ks))"
  by (simp add: PgConvertType_snd PgConvertType_range_snd)

text \<open>
  C4, amended. When at most one rule of the configuration lists the raw type name,
  two calls for columns that agree on raw type and not-null flag return the same
  pair, whatever the two range orders; also when the second call runs on the
  configuration as the first one left it.
\<close>

theorem PgConvertType_deterministic:
  assumes "range_order cfg ks1" and "range_order cfg ks2"
    and "PgColumn.DataType c1 = PgColumn.DataType c2" and "NotNull c1 = NotNull c2"
    and "\<forall>k1 k2 v1 v2. cfg k1 = Some v1 \<and> cfg k2 = Some v2
             \<and> PgColumn.DataType c1 \<in> set (DBTypes v1)
             \<and> PgColumn.DataType c1 \<in> set (DBTypes v2) \<longrightarrow> k1 = k2"
  shows "fst (PgConvertType c1 cfg ks1) = fst (PgConvertType c2 cfg ks2)
       \<and> fst (PgConvertType c2 (snd (PgConvertType c1 cfg ks1)) ks2) = fst (PgConvertType c1 cfg ks1)"
proof -
  have fm: "first_match c1 ks1 cfg = first_match c1 ks2 cfg"
  proof (cases "\<exists>k v. cfg k = Some v \<and> PgColumn.DataType c1 \<in> set (DBTypes v)")
    case True
    then obtain k v where kv: "cfg k = Some v" "PgColumn.DataType c1 \<in> set (DBTypes v)" by blast
    then have "k \<in> set ks1" "k \<in> set ks2" using assms(1,2) by (auto simp: range_order_def)
    then show ?thesis
      using first_match_unique[OF assms(5) kv, of ks1] first_match_unique[OF assms(5) kv, of ks2]
      by simp
  next
    case False
    then have "first_match c1 ks1 cfg = None" "first_match c1 ks2 cfg = None"
      by (auto intro!: first_match_None)
    then show ?thesis by simp
  qed
  have eq: "fst (PgConvertType c1 cfg ks1) = fst (PgConvertType c2 cfg ks2)"
    using fm first_match_cong_col[OF assms(3,4), of ks2 cfg] by (simp add: PgConvertType_fst)
  have "fst (PgConvertType c2 (snd (PgConvertType c1 cfg ks1)) ks2) = fst (PgConvertType c2 cfg ks2)"
    by (rule PgConvertType_fst_same_rules[OF PgConvertType_same_rules])
  with eq show ?thesis by simp
qed

theorem PgConvertType_deterministic_witness:
  "fst (PgConvertType col_i ex_cfg [''default'', ''string'', ''int'']) =
     fst (PgConvertType col_i ex_cfg [''int'', ''string'', ''default''])
   \<and> fst (PgConvertType col_i
            (snd (PgConvertType col_i ex_cfg [''default'', ''string'', ''int'']))
            [''int'', ''string'', ''default'']) =
     fst (PgConvertType col_i ex_cfg [''default'', ''string'', ''int''])"
proof -
  have h1: "range_order ex_cfg [''default'', ''string'', ''int'']"
    by (auto simp: range_order_def ex_cfg_def)
  have h2: "range_order ex_cfg [''int'', ''string'', ''default'']"
    by (auto simp: range_order_def ex_cfg_def)
  have h5: "\<forall>k1 k2 v1 v2. ex_cfg k1 = Some v1 \<and> ex_cfg k2 = Some v2
             \<and> PgColumn.DataType col_i \<in> set (DBTypes v1)
             \<and> PgColumn.DataType col_i \<in> set (DBTypes v2) \<longrightarrow> k1 = k2"
    by (auto simp: ex_defs split: if_splits)
  from PgConvertType_deterministic[OF h1 h2 refl refl h5] show ?thesis .
qed

section \<open>Claims about the model builder\<close>

lemma PgColToField_fst:
  "fst (PgColToField env col cfg ks) =
     Inr \<lparr>StructField.Name = PublicVarName env (PgColumn.Name col),
          Type = fst (fst (PgConvertType col cfg ks)), Tag = [],
          NilVal = snd (fst (PgConvertType col cfg ks)), Col = col\<rparr>"
  by (simp add: PgColToField_def Let_def split: prod.splits)

lemma PgColToField_snd: "snd (PgColToField env col cfg ks) = snd (PgConvertType col cfg ks)"
  by (simp add: PgColToField_def Let_def split: prod.splits)

lemma PgTableToStruct_loop_fields:
  "\<exists>fs' cfg'. PgTableToStruct_loop env kss j cs cfg fs = (Inr (fs @ fs'), cfg')
      \<and> map Col fs' = cs
      \<and> map StructField.Name fs' = map (\<lambda>c. PublicVarName env (PgColumn.Name c)) cs"
proof (induction cs arbitrary: j cfg fs)
  case Nil
  then show ?case by simp
next
  case (Cons c cs)
  obtain f cfg1 where step: "PgColToField env c cfg (kss j) = (Inr f, cfg1)"
    and f: "Col f = c" "StructField.Name f = PublicVarName env (PgColumn.Name c)"
    using PgColToField_fst[of env c cfg "kss j"]
    by (cases "PgColToField env c cfg (kss j)") auto
  from Cons[of "j + 1" cfg1 "fs @ [f]"] obtain fs' cfg'
    where r: "PgTableToStruct_loop env kss (j + 1) cs cfg1 (fs @ [f]) = (Inr ((fs @ [f]) @ fs'), cfg')"
      and m: "map Col fs' = cs"
        "map StructField.Name fs' = map (\<lambda>c. PublicVarName env (PgColumn.Name c)) cs"
    by blast
  have "PgTableToStruct_loop env kss j (c # cs) cfg fs = (Inr (fs @ (f # fs')), cfg')"
    using step r by simp
  moreover have "map Col (f # fs') = c # cs" using f m by simp
  moreover have "map StructField.Name (f # fs') =
      map (\<lambda>c. PublicVarName env (PgColumn.Name c)) (c # cs)" using f m by simp
  ultimately show ?case by (intro exI[of _ "f # fs'"] exI[of _ cfg']) simp
qed

text \<open>
  C3. For every table, configuration and choice of range orders, \<open>PgTableToStruct\<close>
  succeeds and the fields of its struct are, in order, the fields of the table's
  columns: one field per column, the source column of the field at each position
  being the column at that position.
\<close>

theorem PgTableToStruct_field_order:
  "\<exists>st cfg'. PgTableToStruct env kss t cfg = (Inr st, cfg')
      \<and> map Col (Fields st) = Columns t
      \<and> length (Fields st) = length (Columns t)
      \<and> map StructField.Name (Fields st) = map (\<lambda>c. PublicVarName env (PgColumn.Name c)) (Columns t)"
proof -
  from PgTableToStruct_loop_fields[of env kss 0 "Columns t" cfg "[]"] obtain fs' cfg'
    where r: "PgTableToStruct_loop env kss 0 (Columns t) cfg [] = (Inr fs', cfg')"
      and m: "map Col fs' = Columns t"
        "map StructField.Name fs' = map (\<lambda>c. PublicVarName env (PgColumn.Name c)) (Columns t)"
    by auto
  have "length fs' = length (Columns t)" using m(1) by (metis length_map)
  then show ?thesis using r m by (simp add: PgTableToStruct_def)
qed

lemmas ex_run_defs = ex_env_def ex_ord_def col_id_def col_email_def tbl_t3_def tbl_symbolic_def
  tbl_user_account_def ex_db_def ex_columns_def db_of_def
  bad_db_def keep_alnum_def col_symbolic_def

text \<open>
  C8, as stated, fails: for a column whose name is purely symbolic and whose derived
  identifier is empty, \<open>PgColToField\<close> returns a field, with the empty name, and
  no error.
\<close>

theorem PgColToField_symbolic_counterexample:
  "PublicVarName ex_env (PgColumn.Name col_symbolic) = []
   \<and> fst (PgColToField ex_env col_symbolic ex_cfg [''default'', ''string'', ''int'']) =
       Inr \<lparr>StructField.Name = [], Type = ''string'', Tag = [],
            NilVal = [CHR 0x22, CHR 0x22], Col = col_symbolic\<rparr>"
proof -
  have "PublicVarName ex_env (PgColumn.Name col_symbolic) = []"
    by (simp add: ex_env_def keep_alnum_def col_symbolic_def)
  moreover have "fst (PgColToField ex_env col_symbolic ex_cfg [''default'', ''string'', ''int'']) =
       Inr \<lparr>StructField.Name = [], Type = ''string'', Tag = [],
            NilVal = [CHR 0x22, CHR 0x22], Col = col_symbolic\<rparr>"
    by code_simp
  ultimately show ?thesis by simp
qed

text \<open>
  C8, amended. \<open>PgColToField\<close> never fails: whatever identifier is derived from
  the column name, it returns the field with that identifier, the resolved type and
  sentinel, and the column.
\<close>

theorem PgColToField_never_fails:
  "fst (PgColToField env col cfg ks) =
     Inr \<lparr>StructField.Name = PublicVarName env (PgColumn.Name col),
          Type = fst (fst (PgConvertType col cfg ks)), Tag = [],
          NilVal = snd (fst (PgConvertType col cfg ks)), Col = col\<rparr>"
  by (simp add: PgColToField_def Let_def split: prod.splits)

section \<open>The model builder reads the rules only\<close>

lemma PgColToField_same_rules: "same_rules cfg (snd (PgColToField env col cfg ks))"
  by (simp add: PgColToField_snd PgConvertType_same_rules)

lemma PgColToField_fst_same_rules:
  "same_rules cfg0 cfg \<Longrightarrow> fst (PgColToField env col cfg ks) = fst (PgColToField env col cfg0 ks)"
  by (simp add: PgColToField_fst PgConvertType_fst_same_rules)

lemma PgTableToStruct_loop_step:
  "PgTableToStruct_loop env kss j (c # cs) cfg fs =
     PgTableToStruct_loop env kss (j + 1) cs (snd (PgColToField env c cfg (kss j)))
       (fs @ [projr (fst (PgColToField env c cfg (kss j)))])"
  using PgColToField_fst[of env c cfg "kss j"]
  by (cases "PgColToField env c cfg (kss j)") auto

lemma PgTableToStruct_loop_fst_same_rules:
  "same_rules cfg0 a \<Longrightarrow> same_rules cfg0 b
     \<Longrightarrow> fst (PgTableToStruct_loop env kss j cs a fs) = fst (PgTableToStruct_loop env kss j cs b fs)"
proof (induction cs arbitrary: j a b fs)
  case Nil
  then show ?case by simp
next
  case (Cons c cs)
  have a': "same_rules cfg0 (snd (PgColToField env c a (kss j)))"
    by (rule same_rules_trans[OF Cons.prems(1) PgColToField_same_rules])
  have b': "same_rules cfg0 (snd (PgColToField env c b (kss j)))"
    by (rule same_rules_trans[OF Cons.prems(2) PgColToField_same_rules])
  have f: "fst (PgColToField env c a (kss j)) = fst (PgColToField env c b (kss j))"
    by (simp add: PgColToField_fst_same_rules[OF Cons.prems(1)]
          PgColToField_fst_same_rules[OF Cons.prems(2)])
  show ?case unfolding PgTableToStruct_loop_step f by (rule Cons.IH[OF a' b'])
qed

lemma PgTableToStruct_loop_same_rules:
  "same_rules cfg (snd (PgTableToStruct_loop env kss j cs cfg fs))"
proof (induction cs arbitrary: j cfg fs)
  case Nil
  then show ?case by (simp add: same_rules_refl)
next
  case (Cons c cs)
  show ?case unfolding PgTableToStruct_loop_step
    by (rule same_rules_trans[OF PgColToField_same_rules Cons])
qed

lemma PgTableToStruct_fst_same_rules:
  assumes "same_rules cfg0 cfg"
  shows "fst (PgTableToStruct env kss t cfg) = fst (PgTableToStruct env kss t cfg0)"
proof -
  have "fst (PgTableToStruct_loop env kss 0 (Columns t) cfg [])
      = fst (PgTableToStruct_loop env kss 0 (Columns t) cfg0 [])"
    by (rule PgTableToStruct_loop_fst_same_rules[OF assms same_rules_refl])
  then show ?thesis
    by (cases "PgTableToStruct_loop env kss 0 (Columns t) cfg []";
        cases "PgTableToStruct_loop env kss 0 (Columns t) cfg0 []")
       (auto simp: PgTableToStruct_def split: sum.splits)
qed

lemma PgTableToStruct_same_rules: "same_rules cfg (snd (PgTableToStruct env kss t cfg))"
  using PgTableToStruct_loop_same_rules[of cfg env kss 0 "Columns t" "[]"]
  by (cases "PgTableToStruct_loop env kss 0 (Columns t) cfg []")
     (auto simp: PgTableToStruct_def split: sum.splits)

section \<open>The table loop\<close>

lemma PgTableToStruct_Inr: "\<exists>st. fst (PgTableToStruct env kss t cfg) = Inr st"
  using PgTableToStruct_loop_fields[of env kss 0 "Columns t" cfg "[]"]
  by (auto simp: PgTableToStruct_def)

lemma PgCreateStruct_loop_step:
  assumes "fst (PgTableToStruct env (ord i) tbl cfg) = Inr st"
  shows "PgCreateStruct_loop env ord i (tbl # tbls) cfg src =
     (case PgExecuteStructTmpl env st of
        (s, Some err) \<Rightarrow>
          ((src, Some (Wrap err ''faield to execute template'')),
           snd (PgTableToStruct env (ord i) tbl cfg))
      | (s, None) \<Rightarrow>
          PgCreateStruct_loop env ord (i + 1) tbls (snd (PgTableToStruct env (ord i) tbl cfg))
            (src @ s))"
  using assms by (cases "PgTableToStruct env (ord i) tbl cfg") (auto split: prod.splits option.splits)

lemma PgCreateStruct_loop_append_ok:
  "PgCreateStruct_loop env ord i xs cfg src = ((out, None), cfg1)
     \<Longrightarrow> PgCreateStruct_loop env ord i (xs @ ys) cfg src =
         PgCreateStruct_loop env ord (i + length xs) ys cfg1 out"
proof (induction xs arbitrary: i cfg src)
  case Nil
  then show ?case by simp
next
  case (Cons x xs)
  obtain st where st: "fst (PgTableToStruct env (ord i) x cfg) = Inr st"
    using PgTableToStruct_Inr by blast
  obtain s r where ex: "PgExecuteStructTmpl env st = (s, r)" by (cases "PgExecuteStructTmpl env st")
  show ?case
  proof (cases r)
    case None
    have 1: "PgCreateStruct_loop env ord i (x # xs) cfg src =
        PgCreateStruct_loop env ord (i + 1) xs (snd (PgTableToStruct env (ord i) x cfg)) (src @ s)"
      by (simp only: PgCreateStruct_loop_step[where ord=ord and i=i, OF st] ex None) simp
    have 2: "PgCreateStruct_loop env ord i ((x # xs) @ ys) cfg src =
        PgCreateStruct_loop env ord (i + 1) (xs @ ys) (snd (PgTableToStruct env (ord i) x cfg)) (src @ s)"
      by (simp only: append_Cons PgCreateStruct_loop_step[where ord=ord and i=i, OF st] ex None) simp
    have "PgCreateStruct_loop env ord (i + 1) (xs @ ys) (snd (PgTableToStruct env (ord i) x cfg)) (src @ s)
        = PgCreateStruct_loop env ord (i + 1 + length xs) ys cfg1 out"
      using Cons.prems unfolding 1 by (rule Cons.IH)
    then show ?thesis unfolding 2 by simp
  next
    case (Some e)
    have "PgCreateStruct_loop env ord i (x # xs) cfg src =
        ((src, Some (Wrap e ''faield to execute template'')), snd (PgTableToStruct env (ord i) x cfg))"
      by (simp only: PgCreateStruct_loop_step[where ord=ord and i=i, OF st] ex Some) simp
    with Cons.prems show ?thesis by simp
  qed
qed

lemma PgCreateStruct_loop_output:
  "PgCreateStruct_loop env ord i xs cfg src = ((out, None), cfg1) \<Longrightarrow> same_rules cfg0 cfg
     \<Longrightarrow> out = src @ concat (map (\<lambda>(j, t). table_output env (ord j) t cfg0)
                                (zip [i..<i + length xs] xs))"
proof (induction xs arbitrary: i cfg src)
  case Nil
  then show ?case by simp
next
  case (Cons x xs)
  obtain st where st: "fst (PgTableToStruct env (ord i) x cfg) = Inr st"
    using PgTableToStruct_Inr by blast
  obtain s r where ex: "PgExecuteStructTmpl env st = (s, r)" by (cases "PgExecuteStructTmpl env st")
  have st0: "fst (PgTableToStruct env (ord i) x cfg0) = Inr st"
    using st PgTableToStruct_fst_same_rules[OF Cons.prems(2), of env "ord i" x] by simp
  have s: "table_output env (ord i) x cfg0 = s" by (simp add: table_output_def st0 ex)
  have "[i..<i + length (x # xs)] = i # [i + 1..<i + 1 + length xs]"
    using upt_conv_Cons[of i "i + length (x # xs)"] by simp
  then have z: "zip [i..<i + length (x # xs)] (x # xs) = (i, x) # zip [i + 1..<i + 1 + length xs] xs"
    by (simp only: zip_Cons_Cons)
  show ?case
  proof (cases r)
    case None
    have 1: "PgCreateStruct_loop env ord i (x # xs) cfg src =
        PgCreateStruct_loop env ord (i + 1) xs (snd (PgTableToStruct env (ord i) x cfg)) (src @ s)"
      by (simp only: PgCreateStruct_loop_step[where ord=ord and i=i, OF st] ex None) simp
    have sr: "same_rules cfg0 (snd (PgTableToStruct env (ord i) x cfg))"
      by (rule same_rules_trans[OF Cons.prems(2) PgTableToStruct_same_rules])
    have "out = (src @ s) @ concat (map (\<lambda>(j, t). table_output env (ord j) t cfg0)
                                (zip [i + 1..<i + 1 + length xs] xs))"
      using Cons.prems(1) unfolding 1 by (rule Cons.IH[OF _ sr])
    then show ?thesis unfolding z by (simp add: s)
  next
    case (Some e)
    have "PgCreateStruct_loop env ord i (x # xs) cfg src =
        ((src, Some (Wrap e ''faield to execute template'')), snd (PgTableToStruct env (ord i) x cfg))"
      by (simp only: PgCreateStruct_loop_step[where ord=ord and i=i, OF st] ex Some) simp
    with Cons.prems show ?thesis by simp
  qed
qed

lemma PgLoadTableDef_rows_order:
  "PgLoadTableDef_rows db schema rs tbs = Inr out
     \<Longrightarrow> \<exists>new. out = tbs @ new
           \<and> map (\<lambda>t. Inr (PgTable.DataType t, PgTable.Name t)) new = rs"
proof (induction rs arbitrary: tbs)
  case Nil
  then show ?case by simp
next
  case (Cons r rs)
  from Cons.prems obtain dataType name cols where r: "r = Inr (dataType, name)"
    and c: "PgLoadColumnDef db schema name = Inr cols"
    and rest: "PgLoadTableDef_rows db schema rs
                 (tbs @ [\<lparr>PgTable.Schema = schema, Name = name, DataType = dataType, Columns = cols\<rparr>])
                = Inr out"
    by (auto split: sum.splits)
  from Cons.IH[OF rest] obtain new where
    n: "out = (tbs @ [\<lparr>PgTable.Schema = schema, Name = name, DataType = dataType, Columns = cols\<rparr>]) @ new"
       "map (\<lambda>t. Inr (PgTable.DataType t, PgTable.Name t)) new = rs" by blast
  show ?case
    by (rule exI[of _ "\<lparr>PgTable.Schema = schema, Name = name, DataType = dataType, Columns = cols\<rparr> # new"])
       (simp add: n r)
qed

section \<open>Claims about the whole run\<close>














lemma PgExecuteStructTmpl_fails:
  assumes "(\<exists>e. template_Parse env structTmpl = Inl e)
     \<or> (\<exists>tpl buf e. template_Parse env structTmpl = Inr tpl
            \<and> template_Execute env tpl st = (buf, Some e))
     \<or> (\<exists>tpl buf s e. template_Parse env structTmpl = Inr tpl
            \<and> template_Execute env tpl st = (buf, None)
            \<and> format_Source env buf = (s, Some e))"
  shows "snd (PgExecuteStructTmpl env st) \<noteq> None"
  using assms by (auto simp: PgExecuteStructTmpl_def)

text \<open>
  C6. When the tables \<open>pre\<close> are rendered without error and the rendering of the
  next table fails (the template does not parse, or its execution fails, or the
  formatter rejects the text), \<open>PgExecuteStructTmpl\<close> returns an error and the run
  returns that error, wrapped, with an output that is the output accumulated
  before the loop followed by the outputs of the tables of \<open>pre\<close>, in order, and
  nothing of the failing table.
\<close>

theorem PgCreateStruct_render_failure_no_partial_output:
  assumes "PgCreateStruct_loop env ord i pre cfg src = ((out, None), cfg1)"
    and "fst (PgTableToStruct env (ord (i + length pre)) t cfg1) = Inr st"
    and "(\<exists>e. template_Parse env structTmpl = Inl e)
     \<or> (\<exists>tpl buf e. template_Parse env structTmpl = Inr tpl
            \<and> template_Execute env tpl st = (buf, Some e))
     \<or> (\<exists>tpl buf s e. template_Parse env structTmpl = Inr tpl
            \<and> template_Execute env tpl st = (buf, None)
            \<and> format_Source env buf = (s, Some e))"
  shows "snd (PgExecuteStructTmpl env st) \<noteq> None
       \<and> fst (PgCreateStruct_loop env ord i (pre @ t # post) cfg src) =
           (out, map_option (\<lambda>e. Wrap e ''faield to execute template'')
                   (snd (PgExecuteStructTmpl env st)))
       \<and> out = src @ concat (map (\<lambda>(j, t). table_output env (ord j) t cfg)
                                (zip [i..<i + length pre] pre))"
proof -
  have f: "snd (PgExecuteStructTmpl env st) \<noteq> None"
    by (rule PgExecuteStructTmpl_fails[OF assms(3)])
  then obtain s e where ex: "PgExecuteStructTmpl env st = (s, Some e)"
    by (cases "PgExecuteStructTmpl env st") auto
  have "PgCreateStruct_loop env ord i (pre @ t # post) cfg src =
      PgCreateStruct_loop env ord (i + length pre) (t # post) cfg1 out"
    by (rule PgCreateStruct_loop_append_ok[OF assms(1)])
  also have "\<dots> = ((out, Some (Wrap e ''faield to execute template'')),
                     snd (PgTableToStruct env (ord (i + length pre)) t cfg1))"
    by (simp only: PgCreateStruct_loop_step[where ord=ord and i="i + length pre", OF assms(2)] ex)
       simp
  finally have l: "fst (PgCreateStruct_loop env ord i (pre @ t # post) cfg src) =
      (out, Some (Wrap e ''faield to execute template''))" by simp
  have o: "out = src @ concat (map (\<lambda>(j, t). table_output env (ord j) t cfg)
                                (zip [i..<i + length pre] pre))"
    by (rule PgCreateStruct_loop_output[OF assms(1) same_rules_refl])
  show ?thesis using f l o by (simp add: ex)
qed

theorem PgCreateStruct_render_failure_no_partial_output_witness:
  "fst (PgCreateStruct_loop ex_env ex_ord 0 ([tbl_t3] @ tbl_symbolic # [tbl_user_account]) ex_cfg []) =
     ([116, 51],
      Some (Wrap (Wrap (Err ''expected declaration'') ''failed to format source code'')
              ''faield to execute template''))
   \<and> [116, 51] = table_output ex_env (ex_ord 0) tbl_t3 ex_cfg"
proof -
  let ?cfg1 = "snd (PgCreateStruct_loop ex_env ex_ord 0 [tbl_t3] ex_cfg [])"
  let ?st = "\<lparr>Struct.Name = [], TableName = ''$$$'', Struct.Schema = ''public'', Comment = [],
        Fields = [\<lparr>StructField.Name = [], Type = ''string'', Tag = [],
                    NilVal = [CHR 0x22, CHR 0x22], Col = col_symbolic\<rparr>]\<rparr>"
  have "fst (PgCreateStruct_loop ex_env ex_ord 0 [tbl_t3] ex_cfg []) = ([116, 51], None)"
    by code_simp
  then have h1: "PgCreateStruct_loop ex_env ex_ord 0 [tbl_t3] ex_cfg [] = (([116, 51], None), ?cfg1)"
    by (simp add: prod_eq_iff)
  have h2: "fst (PgTableToStruct ex_env (ex_ord (0 + length [tbl_t3])) tbl_symbolic ?cfg1) = Inr ?st"
    by code_simp
  have "template_Parse ex_env structTmpl = Inr structTmpl
      \<and> template_Execute ex_env structTmpl ?st = ([], None)
      \<and> format_Source ex_env [] = ([], Some (Err ''expected declaration''))"
    by (simp add: ex_env_def)
  then have h3: "(\<exists>e. template_Parse ex_env structTmpl = Inl e)
     \<or> (\<exists>tpl buf e. template_Parse ex_env structTmpl = Inr tpl
            \<and> template_Execute ex_env tpl ?st = (buf, Some e))
     \<or> (\<exists>tpl buf s e. template_Parse ex_env structTmpl = Inr tpl
            \<and> template_Execute ex_env tpl ?st = (buf, None)
            \<and> format_Source ex_env buf = (s, Some e))"
    by blast
  have r: "snd (PgExecuteStructTmpl ex_env ?st) =
      Some (Wrap (Err ''expected declaration'') ''failed to format source code'')"
    by code_simp
  from PgCreateStruct_render_failure_no_partial_output[OF h1 h2 h3, of "[tbl_user_account]"]
  show ?thesis unfolding r by simp
qed

text \<open>
  C7. When the run succeeds, the tables it has processed are the rows of the catalog
  query in the order of the rows, and its output is the concatenation, in that
  order, of the output of each table.
\<close>

theorem PgCreateStruct_concatenates_in_catalog_order:
  assumes "Query_pgLoadTableDef db schema = Inr rows"
    and "PgCreateStruct_typeMap env typeMapPath = Inr cfg"
    and "PgCreateStruct env ord db schema typeMapPath = (out, None)"
  shows "\<exists>tbls. PgLoadTableDef db schema = Inr tbls
       \<and> map (\<lambda>t. Inr (PgTable.DataType t, PgTable.Name t)) tbls = rows
       \<and> out = concat (map (\<lambda>(j, t). table_output env (ord j) t cfg) (zip [0..<length tbls] tbls))"
proof (cases "PgLoadTableDef db schema")
  case (Inl e)
  then show ?thesis using assms(3) by (simp add: PgCreateStruct_def)
next
  case (Inr tbls)
  then have "PgLoadTableDef_rows db schema rows [] = Inr tbls"
    using assms(1) by (simp add: PgLoadTableDef_def)
  from PgLoadTableDef_rows_order[OF this]
  have rows: "map (\<lambda>t. Inr (PgTable.DataType t, PgTable.Name t)) tbls = rows" by simp
  have "fst (PgCreateStruct_loop env ord 0 tbls cfg []) = (out, None)"
    using assms(2,3) Inr by (simp add: PgCreateStruct_def)
  then have "PgCreateStruct_loop env ord 0 tbls cfg [] =
      ((out, None), snd (PgCreateStruct_loop env ord 0 tbls cfg []))"
    by (simp add: prod_eq_iff)
  from PgCreateStruct_loop_output[OF this same_rules_refl]
  have "out = concat (map (\<lambda>(j, t). table_output env (ord j) t cfg) (zip [0..<length tbls] tbls))"
    by simp
  with Inr rows show ?thesis by simp
qed

theorem PgCreateStruct_concatenates_in_catalog_order_witness:
  "PgLoadTableDef ex_db ''public'' = Inr [tbl_user_account, tbl_t3]
   \<and> fst (PgCreateStruct ex_env ex_ord ex_db ''public'' []) =
       table_output ex_env (ex_ord 0) tbl_user_account ex_cfg
         @ table_output ex_env (ex_ord 1) tbl_t3 ex_cfg"
proof -
  have h1: "Query_pgLoadTableDef ex_db ''public'' = Inr [Inr (''r'', ''user_account''), Inr (''r'', ''t3'')]"
    by (simp add: ex_db_def db_of_def)
  have h2: "PgCreateStruct_typeMap ex_env [] = Inr ex_cfg"
    by (simp add: PgCreateStruct_typeMap_def ex_env_def)
  have h3: "PgCreateStruct ex_env ex_ord ex_db ''public'' [] =
      ([117, 115, 101, 114, 97, 99, 99, 111, 117, 110, 116, 116, 51], None)"
    by code_simp
  have t: "PgLoadTableDef ex_db ''public'' = Inr [tbl_user_account, tbl_t3]" by code_simp
  from PgCreateStruct_concatenates_in_catalog_order[OF h1 h2 h3] t
  have "[117, 115, 101, 114, 97, 99, 99, 111, 117, 110, 116, 116, 51] =
      table_output ex_env (ex_ord 0) tbl_user_account ex_cfg
        @ table_output ex_env (ex_ord 1) tbl_t3 ex_cfg"
    by (simp add: upt_rec)
  then show ?thesis using t h3 by simp
qed

end
